theory Spec2Isabelle
  imports Main
begin

section \<open>The parts of Go's \<^verbatim>\<open>strings\<close> package that \<^verbatim>\<open>main.go\<close> calls\<close>

text \<open>
  A Go \<^verbatim>\<open>string\<close> is a sequence of bytes; it is modelled as \<^typ>\<open>string\<close>, a list of
  8-bit characters. The functions below follow the documented behaviour of the Go
  standard library on byte strings that hold UTF-8 text.
\<close>

definition CRLF :: string where
  "CRLF = [CHR 0x0D, CHR 0x0A]"

definition HasPrefix :: "string \<Rightarrow> string \<Rightarrow> bool" where
  "HasPrefix s p \<longleftrightarrow> length p \<le> length s \<and> take (length p) s = p"

definition HasSuffix :: "string \<Rightarrow> string \<Rightarrow> bool" where
  "HasSuffix s p \<longleftrightarrow> length p \<le> length s \<and> drop (length s - length p) s = p"

text \<open>\<^verbatim>\<open>strings.Index\<close>: the position of the first instance of \<open>sep\<close>, \<open>None\<close> for Go's \<open>-1\<close>.\<close>

fun Index :: "string \<Rightarrow> string \<Rightarrow> nat option" where
  "Index [] sep = (if sep = [] then Some 0 else None)"
| "Index (c # cs) sep =
     (if HasPrefix (c # cs) sep then Some 0 else map_option Suc (Index cs sep))"

definition Contains :: "string \<Rightarrow> string \<Rightarrow> bool" where
  "Contains s substr \<longleftrightarrow> Index s substr \<noteq> None"

text \<open>
  The loop of \<^verbatim>\<open>strings.genSplit\<close> for a non-empty separator: at most \<open>k\<close> cuts, each at
  the first instance of \<open>sep\<close> in what is left; the rest of the string is the last piece.
\<close>

fun genSplit :: "nat \<Rightarrow> string \<Rightarrow> string \<Rightarrow> string list" where
  "genSplit 0 s sep = [s]"
| "genSplit (Suc k) s sep =
     (case Index s sep of
        None \<Rightarrow> [s]
      | Some m \<Rightarrow> take m s # genSplit k (drop (m + length sep) s) sep)"

text \<open>
  \<^verbatim>\<open>strings.SplitN(s, sep, n)\<close>: \<open>n = 0\<close> gives the nil slice, \<open>n > 0\<close> at most \<open>n\<close> pieces
  (and never more than \<open>len(s) + 1\<close>), \<open>n < 0\<close> all pieces. For \<open>n < 0\<close> Go bounds the
  number of pieces by \<open>Count(s, sep) + 1\<close>, itself at most \<open>len(s) + 1\<close>; the loop stops at the
  first miss of \<open>sep\<close>, so the bound \<open>len(s)\<close> on the cuts gives the same slice. The program calls these
  functions with the literal separators \<open>CRLF CRLF\<close>, \<open>CRLF\<close>, \<open>,\<close> and \<open>:\<close> only; Go's
  special case of an empty separator (one piece per UTF-8 sequence) is not modelled.
\<close>

definition SplitN :: "string \<Rightarrow> string \<Rightarrow> int \<Rightarrow> string list" where
  "SplitN s sep n =
     (if n = 0 then []
      else if n < 0 then genSplit (length s) s sep
      else genSplit (min (nat n) (length s + 1) - 1) s sep)"

definition Split :: "string \<Rightarrow> string \<Rightarrow> string list" where
  "Split s sep = SplitN s sep (- 1)"

text \<open>
  \<^verbatim>\<open>strings.Join\<close>.
\<close>

fun Join :: "string list \<Rightarrow> string \<Rightarrow> string" where
  "Join [] sep = []"
| "Join [x] sep = x"
| "Join (x # y # ys) sep = x @ sep @ Join (y # ys) sep"

text \<open>
  \<^verbatim>\<open>unicode.IsSpace\<close> holds of the code points U+0009 to U+000D, U+0020, U+0085, U+00A0,
  U+1680, U+2000 to U+200A, U+2028, U+2029, U+202F, U+205F and U+3000. \<open>White_Space\<close>
  lists their UTF-8 encodings. Go's decoder yields one of these code points exactly when
  the bytes at hand are its (shortest) encoding, forwards as well as backwards; any other
  byte sequence, ill-formed ones included, decodes to a code point that is no space.
\<close>

definition White_Space :: "string list" where
  "White_Space =
     [[CHR 0x09], [CHR 0x0A], [CHR 0x0B], [CHR 0x0C], [CHR 0x0D], [CHR 0x20],
      [CHR 0xC2, CHR 0x85], [CHR 0xC2, CHR 0xA0],
      [CHR 0xE1, CHR 0x9A, CHR 0x80],
      [CHR 0xE2, CHR 0x80, CHR 0x80], [CHR 0xE2, CHR 0x80, CHR 0x81],
      [CHR 0xE2, CHR 0x80, CHR 0x82], [CHR 0xE2, CHR 0x80, CHR 0x83],
      [CHR 0xE2, CHR 0x80, CHR 0x84], [CHR 0xE2, CHR 0x80, CHR 0x85],
      [CHR 0xE2, CHR 0x80, CHR 0x86], [CHR 0xE2, CHR 0x80, CHR 0x87],
      [CHR 0xE2, CHR 0x80, CHR 0x88], [CHR 0xE2, CHR 0x80, CHR 0x89],
      [CHR 0xE2, CHR 0x80, CHR 0x8A],
      [CHR 0xE2, CHR 0x80, CHR 0xA8], [CHR 0xE2, CHR 0x80, CHR 0xA9],
      [CHR 0xE2, CHR 0x80, CHR 0xAF],
      [CHR 0xE2, CHR 0x81, CHR 0x9F],
      [CHR 0xE3, CHR 0x80, CHR 0x80]]"

lemma White_Space_nonempty: "w \<in> set White_Space \<Longrightarrow> 0 < length w"
  by (auto simp: White_Space_def)

lemma find_White_Space_prefix:
  assumes "find (HasPrefix s) White_Space = Some w"
  shows "length s - length w < length s"
proof -
  from assms have "w \<in> set White_Space" and "HasPrefix s w"
    by (auto simp: find_Some_iff)
  then have "0 < length w" and "length w \<le> length s"
    by (auto simp: HasPrefix_def dest: White_Space_nonempty)
  then show ?thesis by arith
qed

lemma find_White_Space_suffix:
  assumes "find (HasSuffix s) White_Space = Some w"
  shows "length s - length w < length s"
proof -
  from assms have "w \<in> set White_Space" and "HasSuffix s w"
    by (auto simp: find_Some_iff)
  then have "0 < length w" and "length w \<le> length s"
    by (auto simp: HasSuffix_def dest: White_Space_nonempty)
  then show ?thesis by arith
qed

text \<open>\<^verbatim>\<open>strings.TrimSpace\<close>: all leading and all trailing white space removed.\<close>

function TrimLeftSpace :: "string \<Rightarrow> string" where
  "TrimLeftSpace s =
     (case find (HasPrefix s) White_Space of
        None \<Rightarrow> s
      | Some w \<Rightarrow> TrimLeftSpace (drop (length w) s))"
  by pat_completeness auto
termination
  by (relation "measure length") (auto dest: find_White_Space_prefix)

function TrimRightSpace :: "string \<Rightarrow> string" where
  "TrimRightSpace s =
     (case find (HasSuffix s) White_Space of
        None \<Rightarrow> s
      | Some w \<Rightarrow> TrimRightSpace (take (length s - length w) s))"
  by pat_completeness auto
termination
  by (relation "measure length") (auto dest: find_White_Space_suffix)

declare TrimLeftSpace.simps [simp del] TrimRightSpace.simps [simp del]

definition TrimSpace :: "string \<Rightarrow> string" where
  "TrimSpace s = TrimRightSpace (TrimLeftSpace s)"

text \<open>
  \<^verbatim>\<open>strings.ToLower\<close>, byte by byte: the ASCII letters \<open>A\<close> to \<open>Z\<close> become \<open>a\<close> to \<open>z\<close>, all
  other bytes stay. Go maps a code point beyond ASCII through the Unicode tables and an
  ill-formed byte to U+FFFD, which this model leaves out. The program uses the result
  for one test only, whether it contains \<open>html\<close>, and the model decides that test as Go
  does: no code point beyond ASCII has \<open>h\<close>, \<open>t\<close>, \<open>m\<close> or \<open>l\<close> as its lower case, so these
  four letters of the result come from ASCII letters of the argument, and ASCII bytes are
  next to each other in the result exactly when they are in the argument.
\<close>

definition lower_byte :: "char \<Rightarrow> char" where
  "lower_byte c =
     (let n = (of_char c :: nat) in if 65 \<le> n \<and> n \<le> 90 then char_of (n + 32) else c)"

definition ToLower :: "string \<Rightarrow> string" where
  "ToLower s = map lower_byte s"


section \<open>The header parser: \<^verbatim>\<open>parseHeaders\<close>\<close>

text \<open>
  A Go \<^verbatim>\<open>map[string]string\<close> is a partial map; indexing it at a key it does not hold
  gives the zero value, the empty string.
\<close>

definition lookup :: "(string \<rightharpoonup> string) \<Rightarrow> string \<Rightarrow> string" where
  "lookup m k = (case m k of None \<Rightarrow> [] | Some v \<Rightarrow> v)"

text \<open>The three variables the loop of \<^verbatim>\<open>parseHeaders\<close> updates.\<close>

record parser =
  headers :: "string \<rightharpoonup> string"
  currentHeader :: string
  currentValue :: string

text \<open>Lines 218 to 221: the pending header, if there is one, is stored and the builder reset.\<close>

definition flush :: "parser \<Rightarrow> parser" where
  "flush p =
     (if currentHeader p \<noteq> []
      then p\<lparr>headers := (headers p)(currentHeader p \<mapsto> currentValue p), currentValue := []\<rparr>
      else p)"

text \<open>One turn of the loop over the lines (lines 208 to 228).\<close>

definition parse_line :: "parser \<Rightarrow> string \<Rightarrow> parser" where
  "parse_line p line =
     (if line = [] then p
      else if HasPrefix line '' '' \<or> HasPrefix line [CHR 0x09]
      then p\<lparr>currentValue := currentValue p @ '' '' @ TrimSpace line\<rparr>
      else
        (let q = flush p in
         case SplitN line '':'' 2 of
           [k, v] \<Rightarrow> q\<lparr>currentHeader := TrimSpace k, currentValue := currentValue q @ TrimSpace v\<rparr>
         | _ \<Rightarrow> q))"

definition parser_init :: parser where
  "parser_init = \<lparr>headers = Map.empty, currentHeader = [], currentValue = []\<rparr>"

text \<open>After the loop the pending header is stored (lines 230 to 232).\<close>

definition parser_finish :: "parser \<Rightarrow> (string \<rightharpoonup> string)" where
  "parser_finish p =
     (if currentHeader p \<noteq> [] then (headers p)(currentHeader p \<mapsto> currentValue p)
      else headers p)"

definition parseLines :: "string list \<Rightarrow> (string \<rightharpoonup> string)" where
  "parseLines ls = parser_finish (foldl parse_line parser_init ls)"

definition parseHeaders :: "string \<Rightarrow> (string \<rightharpoonup> string)" where
  "parseHeaders headerData = parseLines (Split headerData CRLF)"

section \<open>The session and its commands\<close>

text \<open>
  The fields \<^verbatim>\<open>from\<close> and \<^verbatim>\<open>to\<close> of \<^verbatim>\<open>Session\<close>. The third field, the backend with the
  Graph client and the logger, is the environment \<open>env\<close> below.
\<close>

record Session =
  s_from :: string
  s_to :: "string list"

typedecl MailOptions
typedecl RcptOptions

text \<open>\<^verbatim>\<open>NewSession\<close> sets the backend only: the sender is empty and the recipient slice nil.\<close>

definition NewSession :: Session where
  "NewSession = \<lparr>s_from = [], s_to = []\<rparr>"

text \<open>
  Each command returns its error (\<open>None\<close> for Go's \<^verbatim>\<open>nil\<close>) and the session it leaves.
\<close>

definition AuthPlain :: "string \<Rightarrow> string \<Rightarrow> Session \<Rightarrow> string option \<times> Session" where
  "AuthPlain username password s = (None, s\<lparr>s_from := username\<rparr>)"

definition Mail :: "string \<Rightarrow> MailOptions option \<Rightarrow> Session \<Rightarrow> string option \<times> Session" where
  "Mail sender opts s = (None, s\<lparr>s_from := sender\<rparr>)"

definition Rcpt :: "string \<Rightarrow> RcptOptions option \<Rightarrow> Session \<Rightarrow> string option \<times> Session" where
  "Rcpt rcpt opts s = (None, s\<lparr>s_to := s_to s @ [rcpt]\<rparr>)"

definition Reset :: "Session \<Rightarrow> Session" where
  "Reset s = s\<lparr>s_from := [], s_to := []\<rparr>"

definition Logout :: "Session \<Rightarrow> string option" where
  "Logout s = None"

section \<open>Submitting a message: \<^verbatim>\<open>Session.Data\<close>\<close>

datatype BodyType = TEXT_BODYTYPE | HTML_BODYTYPE

record ItemBody =
  content :: string
  contentType :: BodyType

record EmailAddress =
  address :: string

record Recipient =
  emailAddress :: EmailAddress

record FileAttachment =
  name :: string
  contentBytes :: string

record Message =
  subject :: string
  body :: ItemBody
  toRecipients :: "Recipient list"
  attachments :: "FileAttachment list"

record SendMailPostRequestBody =
  message :: Message
  saveToSentItems :: bool

text \<open>
  What \<^verbatim>\<open>Data\<close> calls outside the program. \<open>ReadFile\<close> is \<^verbatim>\<open>os.ReadFile\<close>, with \<open>Inl\<close> the
  text of its error. \<open>Post\<close> is the call
  \<^verbatim>\<open>graphClient.Users().ByUserId(id).SendMail().Post(ctx, requestBody, nil)\<close> under its
  deadline of 30 seconds: it takes the user id and the request and gives the text of the
  error, \<open>None\<close> for \<^verbatim>\<open>nil\<close>. \<open>shared_loop_variable\<close> tells the language version the
  program is built with: before Go 1.22 the variable of a \<^verbatim>\<open>for ... range\<close> loop is one
  variable for all iterations, from Go 1.22 on each iteration has its own. It matters at
  \<^verbatim>\<open>SetAddress(&addr)\<close>, which stores a pointer to that variable.
\<close>

record env =
  ReadFile :: "string \<Rightarrow> string + string"
  Post :: "string \<Rightarrow> SendMailPostRequestBody \<Rightarrow> string option"
  shared_loop_variable :: bool

datatype panic = IndexOutOfRange

text \<open>
  What a call of \<^verbatim>\<open>Data\<close> that returns has done: the error returned, the lines written to
  the logger in order, and the user id and request of the call to the Graph client, if
  it was reached.
\<close>

record DataResult =
  err :: "string option"
  logged :: "string list"
  call :: "(string \<times> SendMailPostRequestBody) option"

text \<open>
  Lines 110 to 115: the header block is \<^verbatim>\<open>parts[0]\<close>, an index that panics on an empty
  slice, and the body is \<^verbatim>\<open>parts[1]\<close> when there is one.
\<close>

definition split_message :: "string \<Rightarrow> panic + (string \<times> string)" where
  "split_message msg =
     (case Split msg (CRLF @ CRLF) of
        [] \<Rightarrow> Inl IndexOutOfRange
      | h # rest \<Rightarrow> Inr (h, case rest of [] \<Rightarrow> [] | b # _ \<Rightarrow> b))"

text \<open>
  Lines 118 to 126. Every recipient holds a pointer to the loop variable \<^verbatim>\<open>addr\<close>, read
  when the request is sent: with one shared variable all of them then show the last
  address.
\<close>

definition mk_recipient :: "string \<Rightarrow> Recipient" where
  "mk_recipient addr = \<lparr>emailAddress = \<lparr>address = addr\<rparr>\<rparr>"

definition make_recipients :: "bool \<Rightarrow> string list \<Rightarrow> Recipient list" where
  "make_recipients shared rcpts =
     (if shared then map (\<lambda>_. mk_recipient (last rcpts)) rcpts
      else map mk_recipient rcpts)"

text \<open>
  Lines 142 to 154: the loop over the attachment paths, with the attachments collected
  and the lines logged so far. The logger has no prefix and no flags, so a line is the
  formatted text.
\<close>

definition attachment_warning :: "string \<Rightarrow> string \<Rightarrow> string" where
  "attachment_warning path er = ''Error reading attachment '' @ path @ '': '' @ er @ [CHR 0x0A]"

fun read_attachments ::
  "env \<Rightarrow> string list \<Rightarrow> FileAttachment list \<Rightarrow> string list \<Rightarrow> FileAttachment list \<times> string list"
where
  "read_attachments e [] atts lg = (atts, lg)"
| "read_attachments e (path # paths) atts lg =
     (case ReadFile e (TrimSpace path) of
        Inl er \<Rightarrow> read_attachments e paths atts (lg @ [attachment_warning path er])
      | Inr bytes \<Rightarrow>
          read_attachments e paths
            (atts @ [\<lparr>name = TrimSpace path, contentBytes = bytes\<rparr>]) lg)"

definition failure_line :: "string \<Rightarrow> string \<Rightarrow> string" where
  "failure_line sender er =
     ''from=<'' @ sender @ ''>, host=graph.microsoft.com, msgid=NA, errormsg=\"'' @ er @ ''\"''
       @ [CHR 0x0A]"

definition success_line :: "string \<Rightarrow> string list \<Rightarrow> string" where
  "success_line sender rcpts =
     ''from=<'' @ sender
       @ ''>, host=graph.microsoft.com, msgid=NA, mailer=GoGraphSmtp, tls=on, recipients=''
       @ Join rcpts '','' @ [CHR 0x0A]"

text \<open>
  Lines 117 to 169: the request built from the recipients, the parsed headers and the
  body, with the lines the attachment loop logs.
\<close>

definition build_request ::
  "env \<Rightarrow> string list \<Rightarrow> (string \<rightharpoonup> string) \<Rightarrow> string \<Rightarrow> SendMailPostRequestBody \<times> string list"
where
  "build_request e rcpts hdrs bdy =
     (let recips = make_recipients (shared_loop_variable e) rcpts;
          messageBody = \<lparr>content = bdy,
            contentType =
              (if Contains (ToLower (lookup hdrs ''Content-Type'')) ''html''
               then HTML_BODYTYPE else TEXT_BODYTYPE)\<rparr>;
          (atts, lg) =
            (if length (lookup hdrs ''Attachments'') > 0
             then read_attachments e (Split (lookup hdrs ''Attachments'') '','') [] []
             else ([], []));
          msg = \<lparr>subject = lookup hdrs ''Subject'', body = messageBody,
                 toRecipients = recips, attachments = atts\<rparr>
      in (\<lparr>message = msg, saveToSentItems = True\<rparr>, lg))"

text \<open>
  \<^verbatim>\<open>Data\<close>. The reader is given by what \<^verbatim>\<open>io.ReadAll\<close> makes of it: \<open>Inl\<close> the text of its
  error, \<open>Inr\<close> the bytes read.
\<close>

definition Data :: "env \<Rightarrow> Session \<Rightarrow> string + string \<Rightarrow> panic + DataResult" where
  "Data e s r =
     (case r of
        Inl er \<Rightarrow> Inr \<lparr>err = Some er, logged = [], call = None\<rparr>
      | Inr msg \<Rightarrow>
          (case split_message msg of
             Inl p \<Rightarrow> Inl p
           | Inr (h, bdy) \<Rightarrow>
               (let (requestBody, lg) = build_request e (s_to s) (parseHeaders h) bdy
                in case Post e (s_from s) requestBody of
                     Some er \<Rightarrow>
                       Inr \<lparr>err = Some (''failed to send email: '' @ er),
                            logged = lg @ [failure_line (s_from s) er],
                            call = Some (s_from s, requestBody)\<rparr>
                   | None \<Rightarrow>
                       Inr \<lparr>err = None,
                            logged = lg @ [success_line (s_from s) (s_to s)],
                            call = Some (s_from s, requestBody)\<rparr>)))"


text \<open>What a call of \<^verbatim>\<open>Data\<close> handed to the Graph client: the user id and the request.\<close>

definition sent_as :: "panic + DataResult \<Rightarrow> string option" where
  "sent_as out = (case out of Inl _ \<Rightarrow> None | Inr res \<Rightarrow> map_option fst (call res))"

definition sent_request :: "panic + DataResult \<Rightarrow> SendMailPostRequestBody option" where
  "sent_request out = (case out of Inl _ \<Rightarrow> None | Inr res \<Rightarrow> map_option snd (call res))"

text \<open>The body text and the content kind of that request.\<close>

definition sent_content :: "panic + DataResult \<Rightarrow> string option" where
  "sent_content out = map_option (\<lambda>req. content (body (message req))) (sent_request out)"

definition sent_kind :: "panic + DataResult \<Rightarrow> BodyType option" where
  "sent_kind out = map_option (\<lambda>req. contentType (body (message req))) (sent_request out)"

text \<open>
  An environment for the concrete runs below: one readable file, and a Graph client that
  accepts every request.
\<close>

definition example_env :: env where
  "example_env =
     \<lparr>ReadFile = (\<lambda>path. if path = ''/srv/report.txt'' then Inr ''quarterly figures''
                          else Inl (''open '' @ path @ '': no such file or directory'')),
      Post = (\<lambda>uid req. None),
      shared_loop_variable = False\<rparr>"

section \<open>What the specification says, in its own words\<close>

text \<open>
  The value contains \<open>html\<close> in any letter case: four bytes in a row are \<open>h\<close>, \<open>t\<close>, \<open>m\<close>
  and \<open>l\<close>, each in its upper or its lower case.
\<close>

fun html_anycase :: "string \<Rightarrow> bool" where
  "html_anycase (a # b # c # d # rest) =
     ((a \<in> {CHR ''h'', CHR ''H''} \<and> b \<in> {CHR ''t'', CHR ''T''}
        \<and> c \<in> {CHR ''m'', CHR ''M''} \<and> d \<in> {CHR ''l'', CHR ''L''})
      \<or> html_anycase (b # c # d # rest))"
| "html_anycase _ = False"

text \<open>
  The lines of a header block. A continuation line begins with a space or a tab. A
  well-formed header line \<open>Name: value\<close> is no continuation line and has a colon with a
  name before it; its name is the text before the first colon and its value the text
  after it, both without the white space around them.
\<close>

definition is_continuation :: "string \<Rightarrow> bool" where
  "is_continuation l \<longleftrightarrow> HasPrefix l '' '' \<or> HasPrefix l [CHR 0x09]"

definition header_name :: "string \<Rightarrow> string" where
  "header_name l = TrimSpace (takeWhile (\<lambda>c. c \<noteq> CHR '':'') l)"

definition header_value :: "string \<Rightarrow> string" where
  "header_value l = TrimSpace (drop 1 (dropWhile (\<lambda>c. c \<noteq> CHR '':'') l))"

definition well_formed_header :: "string \<Rightarrow> bool" where
  "well_formed_header l \<longleftrightarrow>
     \<not> is_continuation l \<and> CHR '':'' \<in> set l \<and> header_name l \<noteq> []"

text \<open>
  The lines that start no header: empty lines, which are skipped, and continuation
  lines. The continuation lines right after a header line are folded into its value,
  each as one space and the line without the white space around it.
\<close>

definition skipped :: "string \<Rightarrow> bool" where
  "skipped l \<longleftrightarrow> l = [] \<or> is_continuation l"

definition continuation_text :: "string list \<Rightarrow> string" where
  "continuation_text ls =
     concat (map (\<lambda>l. '' '' @ TrimSpace l) (filter (\<lambda>l. l \<noteq> []) (takeWhile skipped ls)))"

text \<open>The headers of a block in the order of their header lines, each with its folded value.\<close>

function logical_headers :: "string list \<Rightarrow> (string \<times> string) list" where
  "logical_headers [] = []"
| "logical_headers (l # ls) =
     (if skipped l then logical_headers ls
      else (header_name l, header_value l @ continuation_text ls)
             # logical_headers (dropWhile skipped ls))"
  by pat_completeness auto
termination
  by (relation "measure length") (auto simp: le_imp_less_Suc length_dropWhile_le)

text \<open>
  Every header line of a block is well-formed: every line is empty, a continuation line
  or a well-formed header line. A well-formed block is such a block whose first line that
  is not empty is no continuation line, so that there is a header for every continuation
  line to continue.
\<close>

fun starts_with_header :: "string list \<Rightarrow> bool" where
  "starts_with_header [] = True"
| "starts_with_header (l # ls) =
     (if l = [] then starts_with_header ls else \<not> is_continuation l)"

definition header_lines_well_formed :: "string list \<Rightarrow> bool" where
  "header_lines_well_formed ls \<longleftrightarrow>
     list_all (\<lambda>l. l = [] \<or> is_continuation l \<or> well_formed_header l) ls"

definition well_formed_block :: "string list \<Rightarrow> bool" where
  "well_formed_block ls \<longleftrightarrow> starts_with_header ls \<and> header_lines_well_formed ls"

text \<open>Concrete inputs for the instances below.\<close>

definition example_block :: string where
  "example_block =
     ''Subject: first'' @ CRLF @ ''X-Note: a'' @ CRLF @ [CHR 0x09] @ ''b  '' @ CRLF @ '' c''
       @ CRLF @ ''Subject: second''"


definition example_html :: string where
  "example_html =
     ''Subject: Hi'' @ CRLF @ ''Content-Type: text/HTML; charset=utf-8'' @ CRLF @ CRLF @ ''<p>Hi</p>''"

definition example_plain :: string where
  "example_plain = ''Subject: Hi'' @ CRLF @ CRLF @ ''Hello Bob''"

section \<open>Splitting never yields the empty slice\<close>

lemma genSplit_not_Nil: "genSplit k s sep \<noteq> []"
  by (cases k) (simp_all split: option.split)

lemma Split_not_Nil: "Split s sep \<noteq> []"
  by (simp add: Split_def SplitN_def genSplit_not_Nil)

lemma split_message_Inr: "\<exists>h b. split_message raw = Inr (h, b)"
  using Split_not_Nil [of raw "CRLF @ CRLF"]
  by (cases "Split raw (CRLF @ CRLF)") (simp_all add: split_message_def)

lemma Data_sent:
  assumes "split_message raw = Inr (h, b)"
  shows "sent_as (Data e s (Inr raw)) = Some (s_from s)"
    and "sent_request (Data e s (Inr raw))
           = Some (fst (build_request e (s_to s) (parseHeaders h) b))"
  using assms
  by (simp_all add: Data_def sent_as_def sent_request_def Let_def
        split: prod.split option.split)

lemma Data_sent_as: "sent_as (Data e s (Inr raw)) = Some (s_from s)"
  using split_message_Inr [of raw] Data_sent(1) by blast

lemma Data_returns: "\<exists>res. Data e s r = Inr res"
proof (cases r)
  case (Inl er)
  then show ?thesis by (simp add: Data_def)
next
  case (Inr raw)
  obtain h b where "split_message raw = Inr (h, b)"
    using split_message_Inr by blast
  with Inr show ?thesis
    by (simp add: Data_def Let_def split: prod.split option.split)
qed

section \<open>The sending identity\<close>

text \<open>
  C10. \<^verbatim>\<open>AuthPlain\<close> accepts every pair of user name and password: it returns no error,
  whatever the password, and stores the user name as the session's sender; the
  recipients stay as they are.
\<close>

theorem AuthPlain_accepts_all:
  "fst (AuthPlain username password s) = None
   \<and> s_from (snd (AuthPlain username password s)) = username
   \<and> s_to (snd (AuthPlain username password s)) = s_to s"
  by (simp add: AuthPlain_def)

text \<open>
  C1, as the code has it. The session has one sender field, written by \<^verbatim>\<open>AuthPlain\<close> and
  by \<^verbatim>\<open>Mail\<close> alike, and \<^verbatim>\<open>Data\<close> sends as the value of that field: a message is sent as
  the session's current sender, and after \<^verbatim>\<open>AuthPlain\<close> followed by \<^verbatim>\<open>Mail\<close> that is the
  sender declared by \<^verbatim>\<open>Mail\<close>.
\<close>

theorem Data_sends_as_current_sender:
  "sent_as (Data e s (Inr raw)) = Some (s_from s)
   \<and> sent_as (Data e (snd (Mail sender opts (snd (AuthPlain username password s)))) (Inr raw))
       = Some sender"
  by (simp add: Data_sent_as Mail_def AuthPlain_def)

text \<open>
  C1 as the claim states it fails: authenticated as alice, with mallory declared as the
  sender by \<^verbatim>\<open>Mail\<close>, the message is sent as mallory.
\<close>

theorem Mail_overrides_authenticated_identity:
  "sent_as (Data example_env
      (snd (Rcpt ''bob@example.com'' None
        (snd (Mail ''mallory@example.com'' None
          (snd (AuthPlain ''alice@example.com'' ''secret'' NewSession))))))
      (Inr (''Subject: Hi'' @ CRLF @ CRLF @ ''Hello Bob'')))
     = Some ''mallory@example.com''
   \<and> ''mallory@example.com'' \<noteq> ''alice@example.com''"
  by (simp add: Data_sent_as Mail_def AuthPlain_def Rcpt_def)

text \<open>
  C3, as the code has it. \<^verbatim>\<open>Reset\<close> empties the sender field and the recipient list; the
  sender field is the sending identity, so a message submitted right after \<^verbatim>\<open>Reset\<close> is
  sent as the empty user id.
\<close>

theorem Reset_clears_sender_and_recipients:
  "s_from (Reset s) = [] \<and> s_to (Reset s) = []
   \<and> sent_as (Data e (Reset s) (Inr raw)) = Some []"
  by (simp add: Data_sent_as Reset_def)

text \<open>
  C3 as the claim states it fails: after authenticating as alice and a \<^verbatim>\<open>Reset\<close>, the
  next message is sent as the empty user id, not as alice.
\<close>

theorem Reset_forgets_authenticated_identity:
  "sent_as (Data example_env
      (snd (Rcpt ''bob@example.com'' None
        (Reset (snd (AuthPlain ''alice@example.com'' ''secret'' NewSession)))))
      (Inr (''Subject: Hi'' @ CRLF @ CRLF @ ''Hello Bob'')))
     = Some []
   \<and> s_from (snd (AuthPlain ''alice@example.com'' ''secret'' NewSession)) = ''alice@example.com''
   \<and> Some [] \<noteq> Some ''alice@example.com''"
  by (simp add: Data_sent_as Reset_def AuthPlain_def Rcpt_def)


section \<open>The request built by \<^verbatim>\<open>Data\<close>\<close>

lemma build_request_fields:
  "subject (message (fst (build_request e rc hs b))) = lookup hs ''Subject''"
  "content (body (message (fst (build_request e rc hs b)))) = b"
  "contentType (body (message (fst (build_request e rc hs b))))
     = (if Contains (ToLower (lookup hs ''Content-Type'')) ''html''
        then HTML_BODYTYPE else TEXT_BODYTYPE)"
  "toRecipients (message (fst (build_request e rc hs b)))
     = make_recipients (shared_loop_variable e) rc"
  "saveToSentItems (fst (build_request e rc hs b)) = True"
  by (simp_all add: build_request_def Let_def split: prod.split)



section \<open>The end-to-end scenario\<close>

lemma e2e_split:
  "split_message
     (''Subject: Hi'' @ CRLF @ ''Content-Type: text/plain'' @ CRLF @ CRLF @ ''Hello Bob'')
     = Inr (''Subject: Hi'' @ CRLF @ ''Content-Type: text/plain'', ''Hello Bob'')"
  by code_simp

lemma e2e_headers:
  "lookup (parseHeaders (''Subject: Hi'' @ CRLF @ ''Content-Type: text/plain'')) ''Subject''
     = ''Hi''"
  "lookup (parseHeaders (''Subject: Hi'' @ CRLF @ ''Content-Type: text/plain'')) ''Content-Type''
     = ''text/plain''"
  "lookup (parseHeaders (''Subject: Hi'' @ CRLF @ ''Content-Type: text/plain'')) ''Attachments''
     = []"
  by code_simp+

lemma e2e_kind: "Contains (ToLower ''text/plain'') ''html'' = False"
  by code_simp

lemma e2e_request:
  "fst (build_request e [''bob@example.com'']
          (parseHeaders (''Subject: Hi'' @ CRLF @ ''Content-Type: text/plain'')) ''Hello Bob'')
     = \<lparr>message = \<lparr>subject = ''Hi'',
          body = \<lparr>content = ''Hello Bob'', contentType = TEXT_BODYTYPE\<rparr>,
          toRecipients = [\<lparr>emailAddress = \<lparr>address = ''bob@example.com''\<rparr>\<rparr>],
          attachments = []\<rparr>,
        saveToSentItems = True\<rparr>"
  unfolding build_request_def e2e_headers e2e_kind
  by (simp add: make_recipients_def mk_recipient_def)

lemma e2e_session:
  "s_from (snd (Rcpt ''bob@example.com'' ropts
        (snd (Mail ''alice@example.com'' mopts
          (snd (AuthPlain ''alice@example.com'' password NewSession))))))
     = ''alice@example.com''"
  "s_to (snd (Rcpt ''bob@example.com'' ropts
        (snd (Mail ''alice@example.com'' mopts
          (snd (AuthPlain ''alice@example.com'' password NewSession))))))
     = [''bob@example.com'']"
  by (simp_all add: Rcpt_def Mail_def AuthPlain_def NewSession_def)

text \<open>
  C9. Authenticated as alice, with sender alice and recipient bob declared, the message
  \<^verbatim>\<open>Subject: Hi\r\nContent-Type: text/plain\r\n\r\nHello Bob\<close> is sent as alice, and the
  request has the subject \<open>Hi\<close>, the plain-text body \<open>Hello Bob\<close>, the one recipient bob,
  no attachment and the flag to save to the sent items set. This holds whatever the
  password, the options of the commands, the files and the answer of the Graph client.
\<close>

theorem end_to_end_alice_bob:
  "sent_as (Data e
      (snd (Rcpt ''bob@example.com'' ropts
        (snd (Mail ''alice@example.com'' mopts
          (snd (AuthPlain ''alice@example.com'' password NewSession))))))
      (Inr (''Subject: Hi'' @ CRLF @ ''Content-Type: text/plain'' @ CRLF @ CRLF @ ''Hello Bob'')))
     = Some ''alice@example.com''
   \<and> sent_request (Data e
      (snd (Rcpt ''bob@example.com'' ropts
        (snd (Mail ''alice@example.com'' mopts
          (snd (AuthPlain ''alice@example.com'' password NewSession))))))
      (Inr (''Subject: Hi'' @ CRLF @ ''Content-Type: text/plain'' @ CRLF @ CRLF @ ''Hello Bob'')))
     = Some \<lparr>message = \<lparr>subject = ''Hi'',
          body = \<lparr>content = ''Hello Bob'', contentType = TEXT_BODYTYPE\<rparr>,
          toRecipients = [\<lparr>emailAddress = \<lparr>address = ''bob@example.com''\<rparr>\<rparr>],
          attachments = []\<rparr>,
        saveToSentItems = True\<rparr>"
  unfolding Data_sent [OF e2e_split] e2e_session e2e_request
  by simp

section \<open>No recipients\<close>

text \<open>
  C7. With no recipient declared, \<^verbatim>\<open>Data\<close> does not panic, whatever the reader gives, and
  the request it sends for a message has the empty recipient list.
\<close>

theorem Data_zero_recipients:
  assumes "s_to s = []"
  shows "(\<exists>res. Data e s r = Inr res)
    \<and> (\<exists>req. sent_request (Data e s (Inr raw)) = Some req \<and> toRecipients (message req) = [])"
proof -
  obtain h b where sp: "split_message raw = Inr (h, b)"
    using split_message_Inr by blast
  have "toRecipients (message (fst (build_request e (s_to s) (parseHeaders h) b))) = []"
    using assms by (simp add: build_request_fields make_recipients_def)
  with Data_sent(2) [OF sp] Data_returns show ?thesis
    by blast
qed

text \<open>An instance of C7: the example message on a new session, which has no recipient.\<close>

theorem Data_zero_recipients_witness:
  "s_to NewSession = []
   \<and> (\<exists>res. Data example_env NewSession (Inr example_plain) = Inr res)
   \<and> (\<exists>req. sent_request (Data example_env NewSession (Inr example_plain)) = Some req
          \<and> toRecipients (message req) = [])"
proof -
  have "s_to NewSession = []"
    by (simp add: NewSession_def)
  with Data_zero_recipients [OF this, of example_env "Inr example_plain" example_plain]
  show ?thesis by simp
qed

section \<open>The body of the message\<close>

lemma two_paragraphs_split:
  "split_message (''Subject: Hi'' @ CRLF @ CRLF @ ''Para1'' @ CRLF @ CRLF @ ''Para2'')
     = Inr (''Subject: Hi'', ''Para1'')"
  by code_simp

text \<open>
  C2. The body sent is \<^verbatim>\<open>parts[1]\<close> of the split at every blank line, so it ends at the
  second blank line: of the body \<^verbatim>\<open>Para1\r\n\r\nPara2\<close> only \<^verbatim>\<open>Para1\<close> is sent, where the
  claim has the whole of it.
\<close>

theorem Data_body_ends_at_second_blank_line:
  "sent_content
     (Data e s (Inr (''Subject: Hi'' @ CRLF @ CRLF @ ''Para1'' @ CRLF @ CRLF @ ''Para2'')))
     = Some ''Para1''"
  unfolding sent_content_def Data_sent(2) [OF two_paragraphs_split]
  by (simp add: build_request_fields)

section \<open>The content kind\<close>

lemma of_char_lower_byte:
  "(of_char (lower_byte c) :: nat)
     = (if 65 \<le> (of_char c :: nat) \<and> (of_char c :: nat) \<le> 90 then of_char c + 32
        else of_char c)"
  by (simp add: lower_byte_def Let_def)

lemma lower_byte_eq_iff:
  assumes "(of_char d :: nat) = n" "97 \<le> n" "n \<le> 122" "(of_char u :: nat) = n - 32"
  shows "lower_byte c = d \<longleftrightarrow> c = d \<or> c = u"
proof -
  have "lower_byte c = d \<longleftrightarrow> (of_char (lower_byte c) :: nat) = of_char d"
    by simp
  also have "\<dots> \<longleftrightarrow> (of_char c :: nat) = of_char d \<or> (of_char c :: nat) = of_char u"
    using assms by (auto simp: of_char_lower_byte)
  also have "\<dots> \<longleftrightarrow> c = d \<or> c = u"
    by simp
  finally show ?thesis .
qed

lemma lower_byte_html:
  "lower_byte c = CHR ''h'' \<longleftrightarrow> c = CHR ''h'' \<or> c = CHR ''H''"
  "lower_byte c = CHR ''t'' \<longleftrightarrow> c = CHR ''t'' \<or> c = CHR ''T''"
  "lower_byte c = CHR ''m'' \<longleftrightarrow> c = CHR ''m'' \<or> c = CHR ''M''"
  "lower_byte c = CHR ''l'' \<longleftrightarrow> c = CHR ''l'' \<or> c = CHR ''L''"
  by (rule lower_byte_eq_iff [where n = 104], simp_all,
      rule lower_byte_eq_iff [where n = 116], simp_all,
      rule lower_byte_eq_iff [where n = 109], simp_all,
      rule lower_byte_eq_iff [where n = 108], simp_all)

lemma Contains_Cons:
  "Contains (x # xs) sub \<longleftrightarrow> HasPrefix (x # xs) sub \<or> Contains xs sub"
  by (simp add: Contains_def)

lemma Contains_Nil: "Contains [] sub \<longleftrightarrow> sub = []"
  by (simp add: Contains_def)

text \<open>The test of line 133 is the test for \<open>html\<close> in any letter case.\<close>

lemma Contains_ToLower_html: "Contains (ToLower v) ''html'' = html_anycase v"
proof (induction v rule: html_anycase.induct)
  case (1 a b c d rest)
  have "HasPrefix (ToLower (a # b # c # d # rest)) ''html''
          \<longleftrightarrow> (a \<in> {CHR ''h'', CHR ''H''} \<and> b \<in> {CHR ''t'', CHR ''T''}
        \<and> c \<in> {CHR ''m'', CHR ''M''} \<and> d \<in> {CHR ''l'', CHR ''L''})"
    by (simp add: HasPrefix_def ToLower_def lower_byte_html)
  moreover have "Contains (ToLower (a # b # c # d # rest)) ''html''
     \<longleftrightarrow> HasPrefix (ToLower (a # b # c # d # rest)) ''html''
         \<or> Contains (ToLower (b # c # d # rest)) ''html''"
    by (simp add: ToLower_def Contains_Cons)
  ultimately show ?case using 1 by simp
qed (simp_all add: ToLower_def Contains_Cons Contains_Nil HasPrefix_def)

text \<open>
  C6, as the code has it. The kind of the body is rich text exactly when the value the
  parsed headers hold under the key \<open>Content-Type\<close>, spelled so, contains \<open>html\<close> in any
  letter case; otherwise it is plain text, and so it is when the headers hold nothing
  under that key.
\<close>

theorem content_kind_by_exact_key:
  assumes "split_message raw = Inr (h, b)"
  shows "sent_kind (Data e s (Inr raw))
      = Some (if html_anycase (lookup (parseHeaders h) ''Content-Type'')
              then HTML_BODYTYPE else TEXT_BODYTYPE)
    \<and> (parseHeaders h ''Content-Type'' = None \<longrightarrow>
         sent_kind (Data e s (Inr raw)) = Some TEXT_BODYTYPE)"
  unfolding sent_kind_def Data_sent(2) [OF assms]
  by (simp add: build_request_fields Contains_ToLower_html lookup_def)

text \<open>
  Two instances of C6: a message with the header \<^verbatim>\<open>Content-Type: text/HTML; charset=utf-8\<close>
  is sent as rich text, a message without the header as plain text.
\<close>

theorem content_kind_by_exact_key_witness:
  "split_message example_html
     = Inr (''Subject: Hi'' @ CRLF @ ''Content-Type: text/HTML; charset=utf-8'', ''<p>Hi</p>'')
   \<and> sent_kind (Data example_env NewSession (Inr example_html)) = Some HTML_BODYTYPE
   \<and> split_message example_plain = Inr (''Subject: Hi'', ''Hello Bob'')
   \<and> parseHeaders ''Subject: Hi'' ''Content-Type'' = None
   \<and> sent_kind (Data example_env NewSession (Inr example_plain)) = Some TEXT_BODYTYPE"
proof -
  have s1: "split_message example_html
     = Inr (''Subject: Hi'' @ CRLF @ ''Content-Type: text/HTML; charset=utf-8'', ''<p>Hi</p>'')"
    by code_simp
  have v1: "html_anycase (lookup (parseHeaders
      (''Subject: Hi'' @ CRLF @ ''Content-Type: text/HTML; charset=utf-8'')) ''Content-Type'')"
    by code_simp
  have s2: "split_message example_plain = Inr (''Subject: Hi'', ''Hello Bob'')"
    by code_simp
  have v2: "parseHeaders ''Subject: Hi'' ''Content-Type'' = None"
    by code_simp
  have k1: "sent_kind (Data example_env NewSession (Inr example_html)) = Some HTML_BODYTYPE"
    using content_kind_by_exact_key [OF s1, of example_env NewSession] v1
    by (simp only: if_True)
  have k2: "sent_kind (Data example_env NewSession (Inr example_plain)) = Some TEXT_BODYTYPE"
    using content_kind_by_exact_key [OF s2, of example_env NewSession] v2
    by blast
  from s1 k1 s2 v2 k2 show ?thesis
    by (intro conjI)
qed

text \<open>
  C6 as the claim states it fails: the header \<^verbatim>\<open>content-type: text/html\<close> is the
  \<open>Content-Type\<close> header under a lookup that ignores the case of the name, and its value
  contains \<open>html\<close>, yet the message is sent as plain text.
\<close>

theorem lower_case_content_type_is_ignored:
  "parseHeaders ''content-type: text/html'' ''content-type'' = Some ''text/html''
   \<and> ToLower ''content-type'' = ToLower ''Content-Type''
   \<and> html_anycase ''text/html''
   \<and> sent_kind (Data example_env NewSession
        (Inr (''content-type: text/html'' @ CRLF @ CRLF @ ''<p>Hi</p>'')))
       = Some TEXT_BODYTYPE"
  by code_simp

section \<open>Attachments\<close>






section \<open>The header parser on well-formed blocks\<close>

lemma HasPrefix_colon: "HasPrefix (c # cs) '':'' \<longleftrightarrow> c = CHR '':''"
  by (simp add: HasPrefix_def)

lemma Index_colon:
  "CHR '':'' \<in> set l \<Longrightarrow> Index l '':'' = Some (length (takeWhile (\<lambda>c. c \<noteq> CHR '':'') l))"
  by (induction l) (auto simp: HasPrefix_colon)

text \<open>On a line with a colon, \<^verbatim>\<open>SplitN(line, ":", 2)\<close> cuts at the first colon.\<close>

lemma SplitN_colon:
  assumes "CHR '':'' \<in> set l"
  shows "SplitN l '':'' 2
           = [takeWhile (\<lambda>c. c \<noteq> CHR '':'') l, drop 1 (dropWhile (\<lambda>c. c \<noteq> CHR '':'') l)]"
proof -
  from assms have "l \<noteq> []" by auto
  then have "min (nat 2) (length l + 1) - 1 = Suc 0"
    by (cases l) simp_all
  then have "SplitN l '':'' 2 = genSplit (Suc 0) l '':''"
    by (simp add: SplitN_def)
  also have "\<dots> = [take (length (takeWhile (\<lambda>c. c \<noteq> CHR '':'') l)) l,
                    drop (length (takeWhile (\<lambda>c. c \<noteq> CHR '':'') l) + 1) l]"
    by (simp add: Index_colon [OF assms])
  also have "take (length (takeWhile (\<lambda>c. c \<noteq> CHR '':'') l)) l
               = takeWhile (\<lambda>c. c \<noteq> CHR '':'') l"
    by (rule takeWhile_eq_take [symmetric])
  also have "drop (length (takeWhile (\<lambda>c. c \<noteq> CHR '':'') l) + 1) l
               = drop 1 (dropWhile (\<lambda>c. c \<noteq> CHR '':'') l)"
    by (simp add: dropWhile_eq_drop)
  finally show ?thesis .
qed

lemma parse_line_empty: "parse_line p [] = p"
  by (simp add: parse_line_def)

lemma parse_line_continuation:
  "l \<noteq> [] \<Longrightarrow> is_continuation l \<Longrightarrow>
     parse_line p l = p\<lparr>currentValue := currentValue p @ '' '' @ TrimSpace l\<rparr>"
  by (simp add: parse_line_def is_continuation_def)

lemma well_formed_header_not_skipped: "well_formed_header l \<Longrightarrow> \<not> skipped l"
  by (auto simp: well_formed_header_def skipped_def)

lemma parse_line_header:
  assumes "well_formed_header l"
  shows "parse_line p l
           = (flush p)\<lparr>currentHeader := header_name l,
                       currentValue := currentValue (flush p) @ header_value l\<rparr>"
proof -
  from assms
  have "l \<noteq> []" "\<not> (HasPrefix l '' '' \<or> HasPrefix l [CHR 0x09])" "CHR '':'' \<in> set l"
    by (auto simp: well_formed_header_def is_continuation_def)
  then show ?thesis
    by (simp add: parse_line_def SplitN_colon Let_def header_name_def header_value_def)
qed

text \<open>
  The loop from a state with a pending header: the pending header takes the continuation
  lines that follow, and the headers of the remaining lines are stored over it.
\<close>

lemma parse_pending:
  assumes "list_all (\<lambda>l. l = [] \<or> is_continuation l \<or> well_formed_header l) ls"
    and "currentHeader p \<noteq> []"
  shows "parser_finish (foldl parse_line p ls)
           = (headers p)(currentHeader p \<mapsto> currentValue p @ continuation_text ls)
               ++ map_of (rev (logical_headers (dropWhile skipped ls)))"
  using assms
proof (induction ls arbitrary: p)
  case Nil
  then show ?case by (simp add: parser_finish_def continuation_text_def)
next
  case (Cons l ls)
  from Cons.prems
  have rest: "list_all (\<lambda>l. l = [] \<or> is_continuation l \<or> well_formed_header l) ls"
    by simp
  consider (empty) "l = []" | (cont) "l \<noteq> []" "is_continuation l" | (hdr) "well_formed_header l"
    using Cons.prems(1) by auto
  then show ?case
  proof cases
    case empty
    then show ?thesis
      using Cons.IH [OF rest Cons.prems(2)]
      by (simp add: parse_line_empty skipped_def continuation_text_def)
  next
    case cont
    let ?q = "p\<lparr>currentValue := currentValue p @ '' '' @ TrimSpace l\<rparr>"
    have "currentHeader ?q \<noteq> []" using Cons.prems(2) by simp
    from Cons.IH [OF rest this] cont show ?thesis
      by (simp add: parse_line_continuation skipped_def continuation_text_def)
  next
    case hdr
    let ?q = "(flush p)\<lparr>currentHeader := header_name l,
                       currentValue := currentValue (flush p) @ header_value l\<rparr>"
    let ?rest = "map_of (rev (logical_headers (dropWhile skipped ls)))"
    have q: "currentHeader ?q \<noteq> []"
      using hdr by (simp add: well_formed_header_def)
    have ns: "\<not> skipped l" using hdr by (rule well_formed_header_not_skipped)
    have hq: "headers ?q = (headers p)(currentHeader p \<mapsto> currentValue p)"
      "currentHeader ?q = header_name l" "currentValue ?q = header_value l"
      using Cons.prems(2) by (simp_all add: flush_def)
    have "parser_finish (foldl parse_line p (l # ls)) = parser_finish (foldl parse_line ?q ls)"
      by (simp add: parse_line_header [OF hdr])
    also have "\<dots> = (headers ?q)(currentHeader ?q \<mapsto> currentValue ?q @ continuation_text ls)
                        ++ ?rest"
      by (rule Cons.IH [OF rest q])
    also have "\<dots> = ((headers p)(currentHeader p \<mapsto> currentValue p))
                         (header_name l \<mapsto> header_value l @ continuation_text ls) ++ ?rest"
      by (simp only: hq)
    also have "\<dots> = (headers p)(currentHeader p \<mapsto> currentValue p)
                        ++ map_of (rev (logical_headers (l # ls)))"
      using ns by simp
    finally have main: "parser_finish (foldl parse_line p (l # ls))
        = (headers p)(currentHeader p \<mapsto> currentValue p)
            ++ map_of (rev (logical_headers (l # ls)))" .
    have ct: "continuation_text (l # ls) = []"
      using ns by (simp add: continuation_text_def)
    have dw: "dropWhile skipped (l # ls) = l # ls"
      using ns by simp
    have "(headers p)(currentHeader p \<mapsto> currentValue p @ continuation_text (l # ls))
            ++ map_of (rev (logical_headers (dropWhile skipped (l # ls))))
          = (headers p)(currentHeader p \<mapsto> currentValue p)
            ++ map_of (rev (logical_headers (l # ls)))"
      by (simp only: ct dw append_Nil2)
    then show ?thesis
      by (rule trans [OF main sym])
  qed
qed

lemma parseLines_well_formed:
  "well_formed_block ls \<Longrightarrow> parseLines ls = map_of (rev (logical_headers ls))"
proof (induction ls)
  case Nil
  then show ?case by (simp add: parseLines_def parser_finish_def parser_init_def)
next
  case (Cons l ls)
  show ?case
  proof (cases "l = []")
    case True
    with Cons show ?thesis
      by (simp add: parseLines_def parse_line_empty well_formed_block_def
            header_lines_well_formed_def skipped_def)
  next
    case False
    with Cons.prems have hdr: "well_formed_header l"
      and rest: "list_all (\<lambda>l. l = [] \<or> is_continuation l \<or> well_formed_header l) ls"
      by (auto simp: well_formed_block_def header_lines_well_formed_def)
    let ?q = "(flush parser_init)\<lparr>currentHeader := header_name l,
                       currentValue := currentValue (flush parser_init) @ header_value l\<rparr>"
    have q: "currentHeader ?q \<noteq> []"
      using hdr by (simp add: well_formed_header_def)
    have ns: "\<not> skipped l" using hdr by (rule well_formed_header_not_skipped)
    have hq: "headers ?q = Map.empty"
      "currentHeader ?q = header_name l" "currentValue ?q = header_value l"
      by (simp_all add: flush_def parser_init_def)
    have "parseLines (l # ls) = parser_finish (foldl parse_line ?q ls)"
      by (simp add: parseLines_def parse_line_header [OF hdr])
    also have "\<dots> = (headers ?q)(currentHeader ?q \<mapsto> currentValue ?q @ continuation_text ls)
                        ++ map_of (rev (logical_headers (dropWhile skipped ls)))"
      by (rule parse_pending [OF rest q])
    also have "\<dots> = [header_name l \<mapsto> header_value l @ continuation_text ls]
                        ++ map_of (rev (logical_headers (dropWhile skipped ls)))"
      by (simp only: hq)
    also have "\<dots> = map_of (rev (logical_headers (l # ls)))"
      using ns by simp
    finally show ?thesis .
  qed
qed

text \<open>
  On a well-formed header block the parser gives the map of the block's headers in which
  a later header line overrides an earlier one of the same name: the map has an entry
  for exactly the names of the header lines, the value of a name is the value of its last
  header line, and that value is the text after the colon followed by the continuation
  lines after it, each joined by one space.
\<close>

theorem parseHeaders_well_formed_block:
  assumes "well_formed_block (Split block CRLF)"
  shows "parseHeaders block = map_of (rev (logical_headers (Split block CRLF)))
    \<and> dom (parseHeaders block) = fst ` set (logical_headers (Split block CRLF))
    \<and> (\<forall>pre k v post.
          logical_headers (Split block CRLF) = pre @ (k, v) # post \<and> k \<notin> fst ` set post
            \<longrightarrow> parseHeaders block k = Some v)"
proof -
  let ?es = "logical_headers (Split block CRLF)"
  have eq: "parseHeaders block = map_of (rev ?es)"
    using assms by (simp add: parseHeaders_def parseLines_well_formed)
  have "dom (map_of (rev ?es)) = fst ` set ?es"
    by (simp add: dom_map_of_conv_image_fst)
  moreover have "map_of (rev ?es) k = Some v"
    if "?es = pre @ (k, v) # post" "k \<notin> fst ` set post" for pre k v post
  proof -
    from that(2) have "map_of (rev post) k = None"
      by (simp add: map_of_eq_None_iff)
    then show ?thesis
      by (simp add: that(1) map_add_def)
  qed
  ultimately show ?thesis
    unfolding eq by blast
qed

text \<open>
  An instance: a block with the header \<open>Subject\<close> twice and the header \<open>X-Note\<close> continued
  over two lines.
\<close>

theorem parseHeaders_well_formed_block_witness:
  "well_formed_block (Split example_block CRLF)
   \<and> parseHeaders example_block = map_of (rev (logical_headers (Split example_block CRLF)))
   \<and> logical_headers (Split example_block CRLF)
        = [(''Subject'', ''first''), (''X-Note'', ''a b c''), (''Subject'', ''second'')]
   \<and> parseHeaders example_block ''Subject'' = Some ''second''
   \<and> parseHeaders example_block ''X-Note'' = Some ''a b c''"
proof -
  have wf: "well_formed_block (Split example_block CRLF)"
    by code_simp
  have es: "logical_headers (Split example_block CRLF)
        = [(''Subject'', ''first''), (''X-Note'', ''a b c''), (''Subject'', ''second'')]"
    by code_simp
  from parseHeaders_well_formed_block [OF wf]
  have eq: "parseHeaders example_block
              = map_of (rev (logical_headers (Split example_block CRLF)))"
    by blast
  have "parseHeaders example_block ''Subject'' = Some ''second''"
    "parseHeaders example_block ''X-Note'' = Some ''a b c''"
    unfolding eq es by simp_all
  with wf es eq show ?thesis by (intro conjI)
qed

text \<open>
  C4. That every header line is well-formed does not suffice. In the block
  \<^verbatim>\<open>\tnote\r\nX-Note: a\r\n b\r\nSubject: Hi\<close> every header line is well-formed and the
  headers are \<open>X-Note\<close> with the folded value \<open>a b\<close> and \<open>Subject\<close> with the value \<open>Hi\<close>,
  but the block begins with a continuation line, and the parser gives \<open>X-Note\<close> the value
  \<^verbatim>\<open> notea b\<close>: the text of the first line is still in the builder when the first header
  line is read. The entries are one for each name, and the later header is as the claim
  has it.
\<close>

theorem orphan_continuation_spoils_first_header:
  "header_lines_well_formed
     (Split ([CHR 0x09] @ ''note'' @ CRLF @ ''X-Note: a'' @ CRLF @ '' b'' @ CRLF @ ''Subject: Hi'')
        CRLF)
   \<and> logical_headers
       (Split ([CHR 0x09] @ ''note'' @ CRLF @ ''X-Note: a'' @ CRLF @ '' b'' @ CRLF @ ''Subject: Hi'')
          CRLF)
       = [(''X-Note'', ''a b''), (''Subject'', ''Hi'')]
   \<and> parseHeaders
       ([CHR 0x09] @ ''note'' @ CRLF @ ''X-Note: a'' @ CRLF @ '' b'' @ CRLF @ ''Subject: Hi'')
       ''X-Note'' = Some '' notea b''
   \<and> parseHeaders
       ([CHR 0x09] @ ''note'' @ CRLF @ ''X-Note: a'' @ CRLF @ '' b'' @ CRLF @ ''Subject: Hi'')
       ''Subject'' = Some ''Hi''"
  by code_simp

text \<open>
  C5. A first line that begins with a space is not dropped: its text stays in the value
  under construction and is put in front of the value of the first header that follows.
  For the block \<^verbatim>\<open> junk\r\nSubject: Hi\<close> the parser gives the subject \<^verbatim>\<open> junkHi\<close>, where
  the claim has \<open>Hi\<close>.
\<close>

theorem leading_continuation_is_prepended:
  "parseHeaders ('' junk'' @ CRLF @ ''Subject: Hi'') ''Subject'' = Some '' junkHi''"
  by code_simp

end
